theory Spec2Isabelle
  imports Main "HOL-Library.Word"
begin

unbundle bit_operations_syntax

section \<open>Data model\<close>

subsection \<open>Channels (CN blocks)\<close>

text \<open>
  The channel kinds of \<open>mdf::ChannelType\<close>. \<open>cg4block.cpp\<close> tests for \<open>Master\<close>,
  \<open>VirtualMaster\<close>, \<open>VariableLength\<close> and \<open>MaxLength\<close>.
\<close>

datatype ChannelType =
  FixedLength | VariableLength | Master | VirtualMaster | Sync | MaxLength | VirtualData

text \<open>
  The members of a \<open>Cn4Block\<close> that \<open>cg4block.cpp\<close> reads or writes through the channel's
  methods. The class itself is declared in \<open>cn4block.h\<close>, which is not among the sources, so
  each member stands for what the corresponding accessor returns:
  \<open>Index()\<close> (the file position, 0 while unwritten), \<open>BlockType()\<close>, \<open>Name()\<close>, \<open>Type()\<close>,
  \<open>Flags()\<close>, \<open>DataBytes()\<close>, \<open>XAxisLinkList()\<close>, the link set by \<open>UpdateDataLink\<close>, the
  offset handed to \<open>PrepareForWriting\<close> and the one handed to \<open>SetInvalidOffset\<close>.
\<close>

record Cn4Fields =
  cn_file_position :: int
  cn_block_type :: string
  cn_name :: string
  cn_type :: ChannelType
  cn_flags :: "32 word"
  cn_data_bytes :: "64 word"
  cn_x_axis_link_list :: "int list"
  cn_data_link :: int
  cn_byte_offset :: "64 word"
  cn_invalid_offset :: "64 word"

text \<open>
  An owning pointer to a block of the composition list \<open>Cx4()\<close>: null, a block whose dynamic
  type is \<open>Cn4Block\<close>, or a block of another class (a channel array, say) with its block type.
\<close>

datatype 'a BlockPtr = NullPtr | Cn4Ptr 'a | OtherPtr string

datatype Cn4Block = Cn4Block (cn: Cn4Fields) (Cx4: "Cn4Block BlockPtr list")

definition Index_cn :: "Cn4Block \<Rightarrow> int" where
  "Index_cn c = cn_file_position (cn c)"

definition BlockType :: "Cn4Block \<Rightarrow> string" where
  "BlockType c = cn_block_type (cn c)"

definition Name_cn :: "Cn4Block \<Rightarrow> string" where
  "Name_cn c = cn_name (cn c)"

definition Type :: "Cn4Block \<Rightarrow> ChannelType" where
  "Type c = cn_type (cn c)"

definition Flags_cn :: "Cn4Block \<Rightarrow> 32 word" where
  "Flags_cn c = cn_flags (cn c)"

definition DataBytes :: "Cn4Block \<Rightarrow> 64 word" where
  "DataBytes c = cn_data_bytes (cn c)"

definition XAxisLinkList :: "Cn4Block \<Rightarrow> int list" where
  "XAxisLinkList c = cn_x_axis_link_list (cn c)"

text \<open>
  An \<open>IChannel\<close> reference as \<open>GetXChannel\<close> receives it: the \<open>dynamic_cast\<close> to
  \<open>Cn4Block\<close> succeeds on the first form and fails on the second (a channel of another
  implementation of the interface).
\<close>

datatype IChannel = IsCn4Block Cn4Block | OtherChannel

subsection \<open>Channel groups (CG blocks)\<close>

text \<open>
  Blocks owned by a group that \<open>cg4block.cpp\<close> only hands on to the block helpers: the
  source information, the sample reductions and the comment. Their classes are not among
  the sources and nothing here looks inside them.
\<close>

typedecl Si4Block
typedecl Sr4Block
typedecl Md4Block

text \<open>
  The members of the base class \<open>MdfBlock\<close> that the file uses. File positions and links are
  \<open>int64_t\<close> values that never come near their bounds and are integers here.
\<close>

record MdfBlock =
  file_position :: int
  block_type :: string
  block_length :: "64 word"
  link_list :: "int list"
  md_comment :: "Md4Block option"

text \<open>
  \<open>Cg4Block\<close> extends \<open>MdfBlock\<close>. The counters keep their widths. \<open>sample\<close> is the replay
  position of the base \<open>IChannelGroup\<close>, read by \<open>Sample()\<close> and advanced by
  \<open>IncrementSample()\<close>.
\<close>

record Cg4Block = MdfBlock +
  record_id :: "64 word"
  nof_samples :: "64 word"
  flags :: "16 word"
  path_separator :: "16 word"
  nof_data_bytes :: "32 word"
  nof_invalid_bytes :: "32 word"
  acquisition_name :: string
  si_block :: "Si4Block option"
  cn_list :: "Cn4Block option list"
  sr_list :: "Sr4Block option list"
  sample :: "64 word"
  sample_buffer :: "8 word list"
  nof_samples_position :: int
  nof_data_position :: int
  nof_invalid_position :: int

definition FilePosition :: "Cg4Block \<Rightarrow> int" where
  "FilePosition cg = file_position cg"

definition Index :: "Cg4Block \<Rightarrow> int" where
  "Index cg = FilePosition cg"

definition NofSamples :: "Cg4Block \<Rightarrow> 64 word" where
  "NofSamples cg = nof_samples cg"

definition RecordId :: "Cg4Block \<Rightarrow> 64 word" where
  "RecordId cg = record_id cg"

definition Flags :: "Cg4Block \<Rightarrow> 16 word" where
  "Flags cg = flags cg"

text \<open>The bits of \<open>CgFlag\<close> and \<open>CnFlag\<close> that the file tests.\<close>

definition CgFlag_VlsdChannel :: "16 word" where
  "CgFlag_VlsdChannel = 0x0001"


definition CnFlag_InvalidValid :: "32 word" where
  "CnFlag_InvalidValid = 0x0002"

section \<open>The flattened channel list\<close>

text \<open>
  \<open>AddCxChannels\<close> appends the composition channels of a channel to the list, depth first:
  null entries, blocks whose type is not \<open>CN\<close> and blocks that are no \<open>Cn4Block\<close> are
  skipped.
\<close>

fun AddCxChannels :: "Cn4Block \<Rightarrow> Cn4Block list \<Rightarrow> Cn4Block list" where
  "AddCxChannels (Cn4Block f cx_list) channel_list =
     fold (\<lambda>cx acc. case cx of
              NullPtr \<Rightarrow> acc
            | OtherPtr t \<Rightarrow> acc
            | Cn4Ptr cn4_block \<Rightarrow>
                if BlockType cn4_block \<noteq> ''CN'' then acc
                else AddCxChannels cn4_block (acc @ [cn4_block]))
          cx_list channel_list"

text \<open>\<open>Cg4Block::Channels\<close>: the declared channels, each followed by its composition channels.\<close>

definition Channels :: "Cg4Block \<Rightarrow> Cn4Block list" where
  "Channels cg =
     fold (\<lambda>cn4 channel_list. case cn4 of
              None \<Rightarrow> channel_list
            | Some cn_block \<Rightarrow> AddCxChannels cn_block (channel_list @ [cn_block]))
          (cn_list cg) []"

section \<open>The axis channel of a channel\<close>

text \<open>
  \<open>Cg4Block::GetXChannel\<close>. Both \<open>std::find_if\<close> calls run over \<open>cn_list_\<close>, the declared
  channels, and skip null entries.
\<close>

definition GetXChannel :: "Cg4Block \<Rightarrow> IChannel \<Rightarrow> Cn4Block option" where
  "GetXChannel cg reference =
     (case reference of
        OtherChannel \<Rightarrow> None
      | IsCn4Block cn4 \<Rightarrow>
          (let x_axis_list = XAxisLinkList cn4;
               found =
                 (if length x_axis_list = 3 \<and> x_axis_list ! 1 = Index cg \<and> x_axis_list ! 2 \<noteq> 0
                  then List.find (\<lambda>p. case p of None \<Rightarrow> False
                                        | Some c \<Rightarrow> Index_cn c = x_axis_list ! 2) (cn_list cg)
                  else None)
           in case found of
                Some p \<Rightarrow> p
              | None \<Rightarrow>
                  (case List.find (\<lambda>x. case x of None \<Rightarrow> False
                                         | Some c \<Rightarrow> Type c = Master \<or> Type c = VirtualMaster)
                          (cn_list cg) of
                     Some p \<Rightarrow> p
                   | None \<Rightarrow> None)))"

section \<open>Files\<close>

text \<open>
  A \<open>std::FILE\<close> opened on the measurement file: its bytes and the current position.
  \<open>fread\<close> delivers the bytes that are there, at most the number asked for; \<open>fwrite\<close>
  overwrites from the current position on and extends the file where it has to (the gap
  that a seek past the end leaves reads as zeros).
\<close>

record FILE =
  contents :: "8 word list"
  position :: nat

definition fread :: "nat \<Rightarrow> FILE \<Rightarrow> 8 word list \<times> FILE" where
  "fread n file =
     (let got = take n (drop (position file) (contents file))
      in (got, file\<lparr>position := position file + length got\<rparr>))"

definition fwrite :: "8 word list \<Rightarrow> FILE \<Rightarrow> FILE" where
  "fwrite bs file =
     (let p = position file;
          padded = contents file @ replicate (p - length (contents file)) 0
      in file\<lparr>contents := take p padded @ bs @ drop (p + length bs) padded,
              position := p + length bs\<rparr>)"



text \<open>
  Modelled from the spec: \<open>MdfBlock::WriteNumber\<close> and \<open>MdfBlock::WriteBytes\<close> are not among
  the sources. Section 6 of the specification fixes the widths of the fields (\<open>u64\<close>, \<open>u16\<close>,
  \<open>u32\<close>, four reserved bytes); a number is written at the current position, least
  significant byte first, and the call returns the number of bytes written.
\<close>

definition le_bytes :: "nat \<Rightarrow> 'a::len word \<Rightarrow> 8 word list" where
  "le_bytes n w = map (\<lambda>i. ucast (drop_bit (8 * i) w)) [0..<n]"



section \<open>Block helpers\<close>

text \<open>
  The helpers of \<open>MdfBlock\<close> and of the channel that \<open>cg4block.cpp\<close> calls and whose code
  is not among the sources. They are parameters of the model, with the signature of the
  call: each receives the members it is given and the file, and returns them as it leaves
  them, with the byte count where the caller uses one. \<open>ReadNumber_u32\<close> is
  \<open>ReadNumber(file, length)\<close> on a \<open>uint32_t\<close> that holds 0 before the call: it returns the
  count, the value of \<open>length\<close> after the call and the file. \<open>UpdateLink_file\<close> is what
  \<open>Cn4Block::UpdateDataLink\<close> does to the file.
\<close>

record BlockHelpers =
  WriteLink4List_cn ::
    "MdfBlock \<Rightarrow> FILE \<Rightarrow> Cn4Block option list \<Rightarrow> nat
       \<Rightarrow> MdfBlock \<times> FILE \<times> Cn4Block option list"
  WriteTx4 :: "MdfBlock \<Rightarrow> FILE \<Rightarrow> nat \<Rightarrow> string \<Rightarrow> MdfBlock \<times> FILE"
  WriteBlock4_si ::
    "MdfBlock \<Rightarrow> FILE \<Rightarrow> Si4Block option \<Rightarrow> nat \<Rightarrow> MdfBlock \<times> FILE \<times> Si4Block option"
  WriteLink4List_sr ::
    "MdfBlock \<Rightarrow> FILE \<Rightarrow> Sr4Block option list \<Rightarrow> nat
       \<Rightarrow> MdfBlock \<times> FILE \<times> Sr4Block option list"
  WriteMdComment :: "MdfBlock \<Rightarrow> FILE \<Rightarrow> nat \<Rightarrow> MdfBlock \<times> FILE"
  MdfBlock_Update :: "MdfBlock \<Rightarrow> FILE \<Rightarrow> 64 word \<times> MdfBlock \<times> FILE"
  MdfBlock_Write :: "MdfBlock \<Rightarrow> FILE \<Rightarrow> 64 word \<times> MdfBlock \<times> FILE"
  UpdateBlockSize :: "MdfBlock \<Rightarrow> FILE \<Rightarrow> 64 word \<Rightarrow> MdfBlock \<times> FILE"
  UpdateLink_file :: "Cn4Block \<Rightarrow> FILE \<Rightarrow> int \<Rightarrow> FILE"
  ReadNumber_u32 :: "FILE \<Rightarrow> 64 word \<times> 32 word \<times> FILE"
  StepFilePosition :: "FILE \<Rightarrow> 64 word \<Rightarrow> 64 word \<times> FILE"


definition with_base :: "Cg4Block \<Rightarrow> MdfBlock \<Rightarrow> Cg4Block" where
  "with_base cg b = cg\<lparr>file_position := file_position b, block_type := block_type b,
     block_length := block_length b, link_list := link_list b, md_comment := md_comment b\<rparr>"

section \<open>Reading records\<close>

text \<open>
  The observers of the data group: \<open>NotifySampleObservers(sample, record_id, record)\<close>
  appends one delivery to the log.
\<close>

type_synonym SampleLog = "(64 word \<times> 64 word \<times> 8 word list) list"

definition NotifySampleObservers ::
  "SampleLog \<Rightarrow> 64 word \<Rightarrow> 64 word \<Rightarrow> 8 word list \<Rightarrow> SampleLog" where
  "NotifySampleObservers notifier s rid rec = notifier @ [(s, rid, rec)]"

definition Sample :: "Cg4Block \<Rightarrow> 64 word" where
  "Sample cg = sample cg"

definition IncrementSample :: "Cg4Block \<Rightarrow> Cg4Block" where
  "IncrementSample cg = cg\<lparr>sample := sample cg + 1\<rparr>"

text \<open>
  A \<open>std::vector<uint8_t> record(n, 0)\<close> after \<open>std::fread(record.data(), 1, n, file)\<close>: the
  bytes read, then the zeros the vector was made with.
\<close>

definition read_into :: "nat \<Rightarrow> 8 word list \<Rightarrow> 8 word list" where
  "read_into n got = got @ replicate (n - length got) 0"

text \<open>
  \<open>Cg4Block::ReadDataRecord\<close>. The record size of a fixed-length group is the sum of two
  \<open>uint32_t\<close> members, formed in 32 bits before it becomes a \<open>size_t\<close>. The result is the
  byte count, the group (its replay position may have advanced), the file and the log of
  the observers.
\<close>

definition ReadDataRecord ::
  "BlockHelpers \<Rightarrow> Cg4Block \<Rightarrow> FILE \<Rightarrow> SampleLog \<Rightarrow> 64 word \<times> Cg4Block \<times> FILE \<times> SampleLog" where
  "ReadDataRecord h cg file notifier =
     (if flags cg AND CgFlag_VlsdChannel \<noteq> 0 then
        (let (n, length, file1) = ReadNumber_u32 h file;
             count = 0 + n;
             (got, file2) = (if length > 0 then fread (unat length) file1 else ([], file1));
             rec = read_into (unat length) got;
             count = (if length > 0 then count + of_nat (List.length got) else count);
             sample = Sample cg
         in if sample < NofSamples cg
            then (count, IncrementSample cg, file2,
                  NotifySampleObservers notifier sample (RecordId cg) rec)
            else (count, cg, file2, notifier))
      else
        (let record_size = (ucast (nof_data_bytes cg + nof_invalid_bytes cg) :: 64 word);
             (got, file1) = fread (unat record_size) file;
             rec = read_into (unat record_size) got;
             count = (of_nat (List.length got) :: 64 word);
             sample = Sample cg
         in if sample < NofSamples cg
            then (count, IncrementSample cg, file1,
                  NotifySampleObservers notifier sample (RecordId cg) rec)
            else (count, cg, file1, notifier)))"

text \<open>
  \<open>Cg4Block::UpdateVlsdSize\<close>. For a VLSD group the two 32-bit members hold the halves of
  the 64-bit size, which grows by the byte count of the call.
\<close>

definition UpdateVlsdSize :: "BlockHelpers \<Rightarrow> Cg4Block \<Rightarrow> FILE \<Rightarrow> 64 word \<times> Cg4Block \<times> FILE" where
  "UpdateVlsdSize h cg file =
     (if Flags cg AND CgFlag_VlsdChannel \<noteq> 0 then
        (let vlsd_size = (ucast (nof_invalid_bytes cg) :: 64 word);
             vlsd_size = push_bit 32 vlsd_size;
             vlsd_size = vlsd_size + ucast (nof_data_bytes cg);
             (n, length, file1) = ReadNumber_u32 h file;
             count = 0 + n;
             (stepped, file2) =
               (if length > 0 then StepFilePosition h file1 (ucast length) else (0, file1));
             count = count + stepped;
             vlsd_size = vlsd_size + count
         in (count,
             cg\<lparr>nof_data_bytes := ucast (vlsd_size AND 0xFFFFFFFF),
                nof_invalid_bytes := ucast (drop_bit 32 vlsd_size),
                nof_samples := nof_samples cg + 1\<rparr>,
             file2))
      else
        (let record_size = (ucast (nof_data_bytes cg + nof_invalid_bytes cg) :: 64 word);
             (stepped, file1) = StepFilePosition h file record_size;
             count = 0 + stepped
         in (count, cg\<lparr>nof_samples := nof_samples cg + 1\<rparr>, file1)))"

section \<open>Record layout\<close>

text \<open>
  Modelled from the spec: \<open>Cn4Block::PrepareForWriting\<close> and \<open>Cn4Block::SetInvalidOffset\<close>
  are not among the sources. The specification leaves the channel's own layout step out of
  scope and says that it is passed the running byte offset, and that an invalid-capable
  channel is assigned a bit position; the model keeps what the channel is handed.
\<close>

definition PrepareForWriting_cn :: "Cn4Block \<Rightarrow> 64 word \<Rightarrow> Cn4Block" where
  "PrepareForWriting_cn c offset = Cn4Block ((cn c)\<lparr>cn_byte_offset := offset\<rparr>) (Cx4 c)"

definition SetInvalidOffset :: "Cn4Block \<Rightarrow> 64 word \<Rightarrow> Cn4Block" where
  "SetInvalidOffset c offset = Cn4Block ((cn c)\<lparr>cn_invalid_offset := offset\<rparr>) (Cx4 c)"

text \<open>
  The loop of \<open>Cg4Block::PrepareForWriting\<close> over \<open>cn_list_\<close>, with its three running
  values: \<open>nof_data_bytes_\<close> (32 bits; the width is added in 64 bits and the sum cut to 32),
  \<open>byte_offset\<close> and \<open>invalid_bit_offset\<close> (both \<open>size_t\<close>). It returns the channels as the
  loop leaves them and the final running values.
\<close>

fun PrepareForWriting_loop ::
  "Cn4Block option list \<Rightarrow> 32 word \<Rightarrow> 64 word \<Rightarrow> 64 word
     \<Rightarrow> Cn4Block option list \<times> 32 word \<times> 64 word \<times> 64 word" where
  "PrepareForWriting_loop [] nof_data byte_offset invalid_bit_offset =
     ([], nof_data, byte_offset, invalid_bit_offset)"
| "PrepareForWriting_loop (None # rest) nof_data byte_offset invalid_bit_offset =
     (let (rest', r) = PrepareForWriting_loop rest nof_data byte_offset invalid_bit_offset
      in (None # rest', r))"
| "PrepareForWriting_loop (Some channel # rest) nof_data byte_offset invalid_bit_offset =
     (let channel = PrepareForWriting_cn channel byte_offset;
          nof_data = (ucast ((ucast nof_data :: 64 word) + DataBytes channel) :: 32 word);
          byte_offset = byte_offset + DataBytes channel;
          (channel, invalid_bit_offset) =
            (if Flags_cn channel AND CnFlag_InvalidValid \<noteq> 0
             then (SetInvalidOffset channel invalid_bit_offset, invalid_bit_offset + 1)
             else (channel, invalid_bit_offset));
          (rest', r) = PrepareForWriting_loop rest nof_data byte_offset invalid_bit_offset
      in (Some channel # rest', r))"

text \<open>\<open>sample_buffer_.resize(n)\<close>: the first \<open>n\<close> bytes, zeros where the buffer was shorter.\<close>

definition resize :: "nat \<Rightarrow> 'a \<Rightarrow> 'a list \<Rightarrow> 'a list" where
  "resize n v xs = take n xs @ replicate (n - length xs) v"

definition PrepareForWriting :: "Cg4Block \<Rightarrow> Cg4Block" where
  "PrepareForWriting cg =
     (if Flags cg AND CgFlag_VlsdChannel \<noteq> 0 then
        cg\<lparr>nof_data_bytes := 0, nof_invalid_bytes := 0, sample_buffer := []\<rparr>
      else
        (let (channels, nof_data, byte_offset, invalid_bit_offset) =
               PrepareForWriting_loop (cn_list cg) 0 0 0;
             nof_invalid =
               (if invalid_bit_offset = 0 then 0
                else if invalid_bit_offset mod 8 > 0 then ucast (invalid_bit_offset div 8 + 1)
                else ucast (invalid_bit_offset div 8) :: 32 word);
             total_size = nof_invalid + nof_data
         in cg\<lparr>cn_list := channels, nof_data_bytes := nof_data,
               nof_invalid_bytes := nof_invalid,
               sample_buffer :=
                 (if total_size > 0 then resize (unat total_size) 0 (sample_buffer cg)
                  else [])\<rparr>))"

section \<open>Writing the block\<close>


text \<open>
  Modelled from the spec: \<open>Cn4Block::UpdateDataLink\<close> and \<open>IChannelGroup::GetChannel\<close> are
  not among the sources. The first is the channel's "payload-link patch operation": the
  link of the channel becomes the given position (what it writes to the file is the helper
  \<open>UpdateLink_file\<close>). The second finds a channel of the group "literally named" as asked,
  among \<open>Channels()\<close>.
\<close>

definition UpdateDataLink :: "Cn4Block \<Rightarrow> int \<Rightarrow> Cn4Block" where
  "UpdateDataLink c pos = Cn4Block ((cn c)\<lparr>cn_data_link := pos\<rparr>) (Cx4 c)"


text \<open>
  The two loops of \<open>Write\<close> over \<open>Channels()\<close> reach, through the pointers of that list,
  every declared channel and every composition channel that \<open>AddCxChannels\<close> collects, and
  call \<open>UpdateDataLink\<close> on those of the given kind. On the channel tree this is
  \<open>UpdateDataLinks\<close>: it descends exactly where \<open>AddCxChannels\<close> does. The effect on the
  file is \<open>UpdateDataLinks_file\<close>, in the order of the list.
\<close>

fun UpdateDataLinks :: "ChannelType \<Rightarrow> int \<Rightarrow> Cn4Block \<Rightarrow> Cn4Block" where
  "UpdateDataLinks kind block_position (Cn4Block f cx_list) =
     (let channel = Cn4Block f cx_list;
          channel = (if Type channel = kind then UpdateDataLink channel block_position
                     else channel)
      in Cn4Block (cn channel)
           (map (\<lambda>cx. case cx of
                    NullPtr \<Rightarrow> NullPtr
                  | OtherPtr t \<Rightarrow> OtherPtr t
                  | Cn4Ptr cn4_block \<Rightarrow>
                      if BlockType cn4_block \<noteq> ''CN'' then Cn4Ptr cn4_block
                      else Cn4Ptr (UpdateDataLinks kind block_position cn4_block))
              cx_list))"







section \<open>Specification-side notions\<close>

text \<open>
  The declared channels of a group without the null entries, for stating what the searches
  of \<open>GetXChannel\<close> range over.
\<close>

definition declared_channels :: "Cg4Block \<Rightarrow> Cn4Block list" where
  "declared_channels cg = List.map_filter (\<lambda>p. p) (cn_list cg)"

definition is_master :: "Cn4Block \<Rightarrow> bool" where
  "is_master c = (Type c = Master \<or> Type c = VirtualMaster)"

section \<open>Example values\<close>

definition ex_fields :: Cn4Fields where
  "ex_fields = \<lparr>cn_file_position = 0, cn_block_type = ''CN'', cn_name = [],
     cn_type = FixedLength, cn_flags = 0, cn_data_bytes = 0, cn_x_axis_link_list = [],
     cn_data_link = 0, cn_byte_offset = 0, cn_invalid_offset = 0\<rparr>"

definition ex_group :: Cg4Block where
  "ex_group = \<lparr>file_position = 0, block_type = [], block_length = 0, link_list = [],
     md_comment = None, record_id = 0, nof_samples = 0, flags = 0, path_separator = 0,
     nof_data_bytes = 0, nof_invalid_bytes = 0, acquisition_name = [], si_block = None,
     cn_list = [], sr_list = [], sample = 0, sample_buffer = [], nof_samples_position = 0,
     nof_data_position = 0, nof_invalid_position = 0\<rparr>"

text \<open>
  A group at position 64 with four declared channels: a signal at 100 whose axis link names
  the channel at 300 of this group, a master at 200, a signal at 300 and a null entry.
\<close>

definition ex_signal :: Cn4Block where
  "ex_signal = Cn4Block (ex_fields\<lparr>cn_file_position := 100,
     cn_x_axis_link_list := [0, 64, 300]\<rparr>) []"

definition ex_time :: Cn4Block where
  "ex_time = Cn4Block (ex_fields\<lparr>cn_file_position := 200, cn_type := Master\<rparr>) []"

definition ex_axis :: Cn4Block where
  "ex_axis = Cn4Block (ex_fields\<lparr>cn_file_position := 300\<rparr>) []"

definition ex_axis_group :: Cg4Block where
  "ex_axis_group = ex_group\<lparr>file_position := 64,
     cn_list := [Some ex_signal, None, Some ex_time, Some ex_axis]\<rparr>"

text \<open>
  A group whose only declared channel is a structure; the master channel is one of the
  structure's composition channels.
\<close>

definition ex_member :: Cn4Block where
  "ex_member = Cn4Block (ex_fields\<lparr>cn_file_position := 500, cn_type := Master,
     cn_data_bytes := 2\<rparr>) []"

definition ex_struct :: Cn4Block where
  "ex_struct = Cn4Block (ex_fields\<lparr>cn_file_position := 400, cn_data_bytes := 4\<rparr>)
     [Cn4Ptr ex_member]"

definition ex_struct_group :: Cg4Block where
  "ex_struct_group = ex_group\<lparr>file_position := 64, cn_list := [Some ex_struct]\<rparr>"

text \<open>
  The 64-bit size that the two 32-bit members of a VLSD group stand for: \<open>invalid_bytes\<close>
  shifted left by 32, or-ed with \<open>data_bytes\<close>.
\<close>

definition vlsd_size :: "Cg4Block \<Rightarrow> 64 word" where
  "vlsd_size cg = push_bit 32 (ucast (nof_invalid_bytes cg)) OR ucast (nof_data_bytes cg)"

text \<open>
  Helpers for the examples. The children and the header update leave block and file as they
  are; the header of a first write goes to the end of the file; a number is read from four
  bytes, least significant first, and nothing is read when fewer are left; a step moves the
  position.
\<close>

definition le_word :: "8 word list \<Rightarrow> 32 word" where
  "le_word bs = foldr (\<lambda>b acc. ucast b + 256 * acc) bs 0"

definition ex_helpers :: BlockHelpers where
  "ex_helpers = \<lparr>
     WriteLink4List_cn = (\<lambda>b file cns i. (b, file, cns)),
     WriteTx4 = (\<lambda>b file i name. (b, file)),
     WriteBlock4_si = (\<lambda>b file si i. (b, file, si)),
     WriteLink4List_sr = (\<lambda>b file srs i. (b, file, srs)),
     WriteMdComment = (\<lambda>b file i. (b, file)),
     MdfBlock_Update = (\<lambda>b file. (block_length b, b, file)),
     MdfBlock_Write = (\<lambda>b file.
        (let file = file\<lparr>position := length (contents file)\<rparr>;
             n = 24 + 8 * length (link_list b)
         in (of_nat n, b\<lparr>file_position := int (position file)\<rparr>,
             fwrite (replicate n 0) file))),
     UpdateBlockSize = (\<lambda>b file bytes. (b\<lparr>block_length := bytes\<rparr>, file)),
     UpdateLink_file = (\<lambda>c file pos. file),
     ReadNumber_u32 = (\<lambda>file.
        (let (got, file1) = fread 4 file
         in if length got = 4 then (4, le_word got, file1) else (0, 0, file1))),
     StepFilePosition = (\<lambda>file steps. (steps, file\<lparr>position := position file + unat steps\<rparr>))\<rparr>"

text \<open>
  A fixed-length group with records of 3 + 1 bytes and one sample declared, before and after
  its only sample; a file with half a record and one with a record and a half.
\<close>

definition ex_fixed_group :: Cg4Block where
  "ex_fixed_group = ex_group\<lparr>record_id := 7, nof_samples := 1, nof_data_bytes := 3,
     nof_invalid_bytes := 1\<rparr>"

definition ex_done_group :: Cg4Block where
  "ex_done_group = ex_fixed_group\<lparr>sample := 1\<rparr>"

definition ex_short_file :: FILE where
  "ex_short_file = \<lparr>contents = [1, 2], position = 0\<rparr>"

definition ex_long_file :: FILE where
  "ex_long_file = \<lparr>contents = [1, 2, 3, 4, 5, 6], position = 0\<rparr>"

text \<open>
  A VLSD group whose size so far is \<open>0xFFFFFFFE\<close>, and a file with one record of three
  bytes behind its length.
\<close>

definition ex_vlsd_group :: Cg4Block where
  "ex_vlsd_group = ex_group\<lparr>flags := 1, nof_samples := 2, nof_data_bytes := 0xFFFFFFFE,
     nof_invalid_bytes := 0\<rparr>"

definition ex_vlsd_file :: FILE where
  "ex_vlsd_file = \<lparr>contents = [3, 0, 0, 0, 9, 9, 9], position = 0\<rparr>"

text \<open>
  A channel is invalid-capable when its flags have the bit \<open>InvalidValid\<close>. \<open>laid_out\<close> is a
  channel with a byte offset and, if it is invalid-capable, a bit position assigned.
\<close>

definition invalid_capable :: "Cn4Block \<Rightarrow> bool" where
  "invalid_capable c = (Flags_cn c AND CnFlag_InvalidValid \<noteq> 0)"

definition laid_out :: "Cn4Block \<Rightarrow> 64 word \<Rightarrow> 64 word \<Rightarrow> Cn4Block" where
  "laid_out c byte_offset bit_offset =
     Cn4Block ((cn c)\<lparr>cn_byte_offset := byte_offset,
                      cn_invalid_offset := (if invalid_capable c then bit_offset
                                            else cn_invalid_offset (cn c))\<rparr>) (Cx4 c)"

text \<open>
  A group with three declared channels of widths 4, 2 and 1 and a null entry; the first two
  channels are invalid-capable.
\<close>

definition ex_layout_group :: Cg4Block where
  "ex_layout_group = ex_group\<lparr>cn_list :=
     [Some (Cn4Block (ex_fields\<lparr>cn_data_bytes := 4, cn_flags := 2\<rparr>) []),
      None,
      Some (Cn4Block (ex_fields\<lparr>cn_data_bytes := 2, cn_flags := 2, cn_invalid_offset := 9\<rparr>) []),
      Some (Cn4Block (ex_fields\<lparr>cn_data_bytes := 1, cn_invalid_offset := 5\<rparr>) [])]\<rparr>"























text \<open>
  A group whose only declared channel is a structure that is not invalid-capable; its
  composition channel is invalid-capable and has the bit position 77.
\<close>

definition ex_flagged_member :: Cn4Block where
  "ex_flagged_member = Cn4Block (ex_fields\<lparr>cn_file_position := 500, cn_flags := 2,
     cn_data_bytes := 2, cn_invalid_offset := 77\<rparr>) []"

definition ex_flagged_struct :: Cn4Block where
  "ex_flagged_struct = Cn4Block (ex_fields\<lparr>cn_file_position := 400, cn_data_bytes := 4\<rparr>)
     [Cn4Ptr ex_flagged_member]"

definition ex_flagged_struct_group :: Cg4Block where
  "ex_flagged_struct_group = ex_group\<lparr>cn_list := [Some ex_flagged_struct]\<rparr>"

section \<open>Properties of the axis lookup\<close>

lemma find_skipping_null:
  "(case List.find (\<lambda>p. case p of None \<Rightarrow> False | Some c \<Rightarrow> P c) ps of
      Some p \<Rightarrow> p | None \<Rightarrow> None) = List.find P (List.map_filter (\<lambda>p. p) ps)"
  by (induction ps) (auto split: option.splits)

lemma find_skipping_null_None:
  "(List.find (\<lambda>p. case p of None \<Rightarrow> False | Some c \<Rightarrow> P c) ps = None) =
   (\<forall>c \<in> set (List.map_filter (\<lambda>p. p) ps). \<not> P c)"
  by (induction ps) (auto split: option.splits)

text \<open>
  C10. A reference that is no \<open>Cn4Block\<close> (the dynamic cast fails) has no axis channel,
  whatever the channels of the group are.
\<close>

theorem GetXChannel_other_channel:
  "GetXChannel cg OtherChannel = None"
  by (simp add: GetXChannel_def)

text \<open>
  C1, as the code has it. For a \<open>Cn4Block\<close> reference with a three-entry axis link list whose
  middle entry is the position of the group and whose last entry is non-zero and is the
  position of a declared channel, the result is the first declared channel at that position,
  master channels notwithstanding. In every other case the result is the first declared
  channel of kind Master or VirtualMaster, and none when there is no such channel. Both
  searches range over the declared channels only, not over the composition channels.
\<close>

theorem GetXChannel_declared:
  "GetXChannel cg (IsCn4Block r) =
     (if length (XAxisLinkList r) = 3 \<and> XAxisLinkList r ! 1 = Index cg
         \<and> XAxisLinkList r ! 2 \<noteq> 0
         \<and> (\<exists>c \<in> set (declared_channels cg). Index_cn c = XAxisLinkList r ! 2)
      then List.find (\<lambda>c. Index_cn c = XAxisLinkList r ! 2) (declared_channels cg)
      else List.find is_master (declared_channels cg))"
proof -
  let ?xs = "XAxisLinkList r"
  let ?byIndex = "\<lambda>p. case p of None \<Rightarrow> False | Some c \<Rightarrow> Index_cn c = ?xs ! 2"
  let ?byKind = "\<lambda>x. case x of None \<Rightarrow> False
                              | Some c \<Rightarrow> Type c = Master \<or> Type c = VirtualMaster"
  have kind: "is_master = (\<lambda>c. Type c = Master \<or> Type c = VirtualMaster)"
    by (rule ext) (simp add: is_master_def)
  have master: "(case List.find ?byKind (cn_list cg) of Some p \<Rightarrow> p | None \<Rightarrow> None)
      = List.find is_master (declared_channels cg)"
    unfolding declared_channels_def kind by (rule find_skipping_null)
  have byIndex: "(case List.find ?byIndex (cn_list cg) of Some p \<Rightarrow> p | None \<Rightarrow> None)
      = List.find (\<lambda>c. Index_cn c = ?xs ! 2) (declared_channels cg)"
    unfolding declared_channels_def by (rule find_skipping_null)
  have none: "(List.find ?byIndex (cn_list cg) = None)
      = (\<forall>c \<in> set (declared_channels cg). Index_cn c \<noteq> ?xs ! 2)"
    unfolding declared_channels_def by (rule find_skipping_null_None)
  show ?thesis
  proof (cases "List.find ?byIndex (cn_list cg)")
    case None
    with none master show ?thesis
      by (simp add: GetXChannel_def Let_def)
  next
    case (Some p)
    with none have ex: "\<exists>c \<in> set (declared_channels cg). Index_cn c = ?xs ! 2"
      by auto
    from Some byIndex have "List.find (\<lambda>c. Index_cn c = ?xs ! 2) (declared_channels cg) = p"
      by simp
    with Some ex master show ?thesis
      by (simp add: GetXChannel_def Let_def)
  qed
qed

theorem GetXChannel_declared_witness:
  "GetXChannel ex_axis_group (IsCn4Block ex_signal) = Some ex_axis
   \<and> GetXChannel ex_axis_group (IsCn4Block ex_time) = Some ex_time"
  using GetXChannel_declared [of ex_axis_group ex_signal]
    GetXChannel_declared [of ex_axis_group ex_time]
  by (simp add: declared_channels_def ex_axis_group_def ex_group_def
      ex_signal_def ex_time_def ex_axis_def ex_fields_def XAxisLinkList_def Index_def
      FilePosition_def Index_cn_def is_master_def Type_def)

text \<open>
  The claim with the flattened channel list fails: the master of \<open>ex_struct_group\<close> is a
  composition channel, the first master of the flattened list, and \<open>GetXChannel\<close> does not
  return it.
\<close>

theorem GetXChannel_flattened_counterexample:
  "List.find is_master (Channels ex_struct_group) = Some ex_member
   \<and> GetXChannel ex_struct_group (IsCn4Block ex_struct) = None"
  by (simp add: Channels_def GetXChannel_def ex_struct_group_def ex_group_def ex_struct_def
      ex_member_def ex_fields_def XAxisLinkList_def is_master_def Type_def BlockType_def)

section \<open>Properties of reading records\<close>

lemma fread_eq:
  "fread n f = (take n (drop (position f) (contents f)),
      f\<lparr>position := position f + min n (length (contents f) - position f)\<rparr>)"
  by (simp add: fread_def Let_def min.commute)

lemma unat_of_nat_min:
  "unat (of_nat (min a (unat (w :: 64 word))) :: 64 word) = min a (unat w)"
  by (rule le_unat_uoi [of _ w]) simp

text \<open>
  C2. One call of \<open>ReadDataRecord\<close> either leaves the observers and the group alone or,
  only when the replay position is below the number of samples, delivers one record at
  that position and advances the position by one. So a position at or past the number of
  samples delivers nothing, and a position that is at most the number of samples stays so.
  The file is read all the same: the record bytes of a fixed-length group, or the length
  and that many bytes of a VLSD group, are consumed whether or not the record is delivered.
\<close>

theorem ReadDataRecord_cursor_bound:
  assumes "ReadDataRecord h cg file notifier = (count, cg', file', notifier')"
  shows "(notifier' = notifier \<and> cg' = cg
          \<or> sample cg < nof_samples cg \<and> sample cg' = sample cg + 1
             \<and> (\<exists>rec. notifier' = notifier @ [(sample cg, record_id cg, rec)]))
       \<and> (\<not> sample cg < nof_samples cg \<longrightarrow> notifier' = notifier \<and> cg' = cg)
       \<and> nof_samples cg' = nof_samples cg
       \<and> (sample cg \<le> nof_samples cg \<longrightarrow> sample cg' \<le> nof_samples cg')
       \<and> (flags cg AND CgFlag_VlsdChannel = 0 \<longrightarrow>
            (let n = unat (ucast (nof_data_bytes cg + nof_invalid_bytes cg) :: 64 word)
             in file' = snd (fread n file) \<and> count = of_nat (length (fst (fread n file)))))
       \<and> (flags cg AND CgFlag_VlsdChannel \<noteq> 0 \<longrightarrow>
            (let (n, len, file1) = ReadNumber_u32 h file
             in if len > 0
                then file' = snd (fread (unat len) file1)
                     \<and> count = n + of_nat (length (fst (fread (unat len) file1)))
                else file' = file1 \<and> count = n))"
  using assms
  by (auto simp: ReadDataRecord_def Let_def Sample_def NofSamples_def RecordId_def
      IncrementSample_def NotifySampleObservers_def inc_le
      split: prod.splits if_splits)

theorem ReadDataRecord_cursor_bound_witness:
  "ReadDataRecord ex_helpers ex_done_group ex_long_file []
     = (4, ex_done_group, ex_long_file\<lparr>position := 4\<rparr>, [])
   \<and> sample ex_done_group = nof_samples ex_done_group"
proof -
  have run: "ReadDataRecord ex_helpers ex_done_group ex_long_file []
      = (4, ex_done_group, ex_long_file\<lparr>position := 4\<rparr>, [])"
    by (simp add: ReadDataRecord_def ex_done_group_def ex_fixed_group_def ex_group_def
        ex_long_file_def CgFlag_VlsdChannel_def fread_def read_into_def Sample_def
        NofSamples_def)
  have "sample ex_done_group = nof_samples ex_done_group"
    by (simp add: ex_done_group_def ex_fixed_group_def ex_group_def)
  with ReadDataRecord_cursor_bound [OF run] run show ?thesis
    by simp
qed

text \<open>
  C9. With the replay position below the number of samples, \<open>ReadDataRecord\<close> advances the
  position and delivers a record whatever the file holds. The record has the full size:
  the bytes that were there, then zeros. When fewer bytes are left than the record needs,
  the byte count is the number of bytes left, and the record is delivered and counted all
  the same.
\<close>

theorem ReadDataRecord_partial_record:
  assumes "sample cg < nof_samples cg"
    and "ReadDataRecord h cg file notifier = (count, cg', file', notifier')"
  shows "sample cg' = sample cg + 1
       \<and> length notifier' = length notifier + 1
       \<and> (flags cg AND CgFlag_VlsdChannel = 0 \<longrightarrow>
            (let n = unat (ucast (nof_data_bytes cg + nof_invalid_bytes cg) :: 64 word);
                 avail = length (contents file) - position file
             in notifier' = notifier @ [(sample cg, record_id cg,
                   take n (drop (position file) (contents file)) @ replicate (n - avail) 0)]
                \<and> unat count = min avail n))
       \<and> (flags cg AND CgFlag_VlsdChannel \<noteq> 0 \<longrightarrow>
            (let (k, len, file1) = ReadNumber_u32 h file;
                 n = unat len;
                 avail = length (contents file1) - position file1
             in notifier' = notifier @ [(sample cg, record_id cg,
                   take n (drop (position file1) (contents file1)) @ replicate (n - avail) 0)]
                \<and> count = k + of_nat (min avail n)))"
  using assms
  by (auto simp: ReadDataRecord_def Let_def Sample_def NofSamples_def RecordId_def
      IncrementSample_def NotifySampleObservers_def fread_eq unat_of_nat_min word_gt_0
      read_into_def split: prod.splits if_splits)

theorem ReadDataRecord_partial_record_witness:
  "ReadDataRecord ex_helpers ex_fixed_group ex_short_file []
     = (2, ex_fixed_group\<lparr>sample := 1\<rparr>, ex_short_file\<lparr>position := 2\<rparr>, [(0, 7, [1, 2, 0, 0])])
   \<and> sample (ex_fixed_group\<lparr>sample := 1\<rparr>) = sample ex_fixed_group + 1"
proof -
  have lt: "sample ex_fixed_group < nof_samples ex_fixed_group"
    by (simp add: ex_fixed_group_def ex_group_def)
  have run: "ReadDataRecord ex_helpers ex_fixed_group ex_short_file []
     = (2, ex_fixed_group\<lparr>sample := 1\<rparr>, ex_short_file\<lparr>position := 2\<rparr>, [(0, 7, [1, 2, 0, 0])])"
    by (simp add: ReadDataRecord_def ex_fixed_group_def ex_group_def ex_short_file_def
        CgFlag_VlsdChannel_def fread_def read_into_def Sample_def NofSamples_def RecordId_def
        IncrementSample_def NotifySampleObservers_def)
      (simp add: numeral_2_eq_2)
  from ReadDataRecord_partial_record [OF lt run] run show ?thesis
    by simp
qed

section \<open>Properties of the VLSD size\<close>

lemma mask_32: "(0xFFFFFFFF :: 64 word) = mask 32"
  by (simp add: mask_eq_exp_minus_1)

lemma pack_unpack:
  "push_bit 32 (ucast (ucast (drop_bit 32 X) :: 32 word) :: 64 word)
     OR ucast (ucast (X AND 0xFFFFFFFF) :: 32 word) = (X :: 64 word)"
proof (rule bit_word_eqI)
  fix n assume "n < LENGTH(64)"
  then show "bit (push_bit 32 (ucast (ucast (drop_bit 32 X) :: 32 word) :: 64 word)
                 OR ucast (ucast (X AND 0xFFFFFFFF) :: 32 word)) n = bit X n"
    unfolding mask_32 by (cases "n < 32") (auto simp: bit_simps)
qed

lemma plus_is_or:
  "push_bit 32 (ucast (hi :: 32 word) :: 64 word) + ucast (lo :: 32 word)
     = push_bit 32 (ucast hi) OR ucast lo"
  by (rule disjunctive_add) (auto simp: bit_simps dest: bit_imp_le_length)

text \<open>
  C7. The two halves of any 64-bit size \<open>X\<close>, the low one in \<open>data_bytes\<close> and the high one
  in \<open>invalid_bytes\<close>, give \<open>X\<close> back as \<open>(invalid_bytes << 32) | data_bytes\<close>. On a VLSD
  group \<open>UpdateVlsdSize\<close> adds its byte count to that size in 64-bit arithmetic, stores the
  halves of the sum and adds one to the number of samples. The byte count is what the read
  of the length reports plus, for a length above zero, what the step over the payload
  reports: four plus the length when these report four and the length.
\<close>

theorem UpdateVlsdSize_accumulates:
  assumes "Flags cg AND CgFlag_VlsdChannel \<noteq> 0"
    and "UpdateVlsdSize h cg file = (count, cg', file')"
    and "ReadNumber_u32 h file = (n, len, file1)"
  shows "vlsd_size cg' = vlsd_size cg + count
       \<and> nof_data_bytes cg' = ucast (vlsd_size cg + count)
       \<and> nof_invalid_bytes cg' = ucast (drop_bit 32 (vlsd_size cg + count))
       \<and> nof_samples cg' = nof_samples cg + 1
       \<and> count = n + (if len > 0 then fst (StepFilePosition h file1 (ucast len)) else 0)
       \<and> (n = 4 \<and> fst (StepFilePosition h file1 (ucast len)) = ucast len
            \<longrightarrow> count = 4 + ucast len)
       \<and> (\<forall>X :: 64 word. push_bit 32 (ucast (ucast (drop_bit 32 X) :: 32 word))
              OR ucast (ucast (X AND 0xFFFFFFFF) :: 32 word) = X)"
proof -
  let ?X = "vlsd_size cg + count"
  have low: "(ucast (?X AND 0xFFFFFFFF) :: 32 word) = ucast ?X"
    unfolding mask_32 by (rule bit_word_eqI) (auto simp: bit_simps)
  from assms have cnt:
    "count = n + (if len > 0 then fst (StepFilePosition h file1 (ucast len)) else 0)"
    by (auto simp: UpdateVlsdSize_def Let_def split: prod.splits if_splits)
  from assms have cg': "cg' = cg\<lparr>nof_data_bytes := ucast (?X AND 0xFFFFFFFF),
      nof_invalid_bytes := ucast (drop_bit 32 ?X), nof_samples := nof_samples cg + 1\<rparr>"
    by (auto simp: UpdateVlsdSize_def Let_def vlsd_size_def plus_is_or
        split: prod.splits if_splits)
  have "vlsd_size cg' = ?X"
    by (subst cg') (simp add: vlsd_size_def pack_unpack)
  moreover have "count = 4 + ucast len"
    if "n = 4" "fst (StepFilePosition h file1 (ucast len)) = ucast len"
    using that cnt by (cases "len > 0") (auto simp: word_gt_0)
  ultimately show ?thesis
    using cnt cg' low pack_unpack by simp
qed

theorem UpdateVlsdSize_accumulates_witness:
  "UpdateVlsdSize ex_helpers ex_vlsd_group ex_vlsd_file
     = (7, ex_vlsd_group\<lparr>nof_data_bytes := 5, nof_invalid_bytes := 1, nof_samples := 3\<rparr>,
        ex_vlsd_file\<lparr>position := 7\<rparr>)
   \<and> vlsd_size (ex_vlsd_group\<lparr>nof_data_bytes := 5, nof_invalid_bytes := 1, nof_samples := 3\<rparr>)
     = vlsd_size ex_vlsd_group + 7"
proof -
  have vlsd: "Flags ex_vlsd_group AND CgFlag_VlsdChannel \<noteq> 0"
    by (simp add: ex_vlsd_group_def ex_group_def Flags_def CgFlag_VlsdChannel_def)
  have run: "UpdateVlsdSize ex_helpers ex_vlsd_group ex_vlsd_file
      = (7, ex_vlsd_group\<lparr>nof_data_bytes := 5, nof_invalid_bytes := 1, nof_samples := 3\<rparr>,
         ex_vlsd_file\<lparr>position := 7\<rparr>)"
    by (simp add: UpdateVlsdSize_def ex_vlsd_group_def ex_group_def ex_vlsd_file_def
        ex_helpers_def Flags_def CgFlag_VlsdChannel_def fread_def le_word_def)
  have rd: "ReadNumber_u32 ex_helpers ex_vlsd_file = (4, 3, ex_vlsd_file\<lparr>position := 4\<rparr>)"
    by (simp add: ex_vlsd_file_def ex_helpers_def fread_def le_word_def)
  from UpdateVlsdSize_accumulates [OF vlsd run rd] run show ?thesis
    by simp
qed

section \<open>Properties of the record layout\<close>

lemma ucast_down_add: "(ucast (a + b :: 64 word) :: 32 word) = ucast a + ucast b"
proof -
  have d: "(4294967296::nat) dvd 18446744073709551616" by simp
  have cut: "(of_nat (n mod 2 ^ 64) :: 32 word) = of_nat n" for n
    by (simp add: word_of_nat_eq_iff take_bit_eq_mod mod_mod_cancel [OF d])
  have "(ucast (a + b) :: 32 word) = of_nat (unat (a + b))" by simp
  also have "\<dots> = of_nat ((unat a + unat b) mod 2 ^ 64)" by (simp add: unat_word_ariths)
  also have "\<dots> = (of_nat (unat a + unat b) :: 32 word)" by (rule cut)
  also have "\<dots> = ucast a + ucast b" by simp
  finally show ?thesis .
qed

lemma ucast_up_down: "(ucast (ucast (a :: 32 word) :: 64 word) :: 32 word) = a"
  by (rule bit_word_eqI) (auto simp: bit_simps)

lemma unat_ucast_small:
  "unat x < 2 ^ 32 \<Longrightarrow> unat (ucast x :: 32 word) = unat x" for x :: "64 word"
  by (simp add: unsigned_ucast_eq take_bit_nat_eq_self)

lemma unat_sum_list:
  "sum_list (map unat ws) < 2 ^ 64 \<Longrightarrow> unat (sum_list ws) = sum_list (map unat ws)"
  for ws :: "64 word list"
proof (induction ws)
  case Nil
  then show ?case by simp
next
  case (Cons w ws)
  then have "unat (sum_list ws) = sum_list (map unat ws)" by simp
  moreover from Cons.prems have "unat w + sum_list (map unat ws) < 2 ^ LENGTH(64)" by simp
  ultimately show ?case by (simp add: unat_add_lem [THEN iffD1])
qed

lemma sum_list_take_le:
  "sum_list (map f (take i xs)) \<le> sum_list (map f xs)" for f :: "'a \<Rightarrow> nat"
proof -
  have "sum_list (map f xs) = sum_list (map f (take i xs)) + sum_list (map f (drop i xs))"
    by (metis append_take_drop_id map_append sum_list_append)
  then show ?thesis by simp
qed

lemma partition_prefix:
  "b < sum_list ws \<Longrightarrow> \<exists>!i. i < length ws \<and> sum_list (take i ws) \<le> b \<and> b < sum_list (take i ws) + ws ! i"
  for ws :: "nat list"
proof (induction ws arbitrary: b)
  case Nil
  then show ?case by simp
next
  case (Cons w ws)
  show ?case
  proof (cases "b < w")
    case True
    show ?thesis
    proof (rule ex1I [of _ 0])
      show "0 < length (w # ws) \<and> sum_list (take 0 (w # ws)) \<le> b \<and> b < sum_list (take 0 (w # ws)) + (w # ws) ! 0"
        using True by simp
    next
      fix i assume "i < length (w # ws) \<and> sum_list (take i (w # ws)) \<le> b \<and> b < sum_list (take i (w # ws)) + (w # ws) ! i"
      with True show "i = 0" by (cases i) auto
    qed
  next
    case False
    with Cons.prems have "b - w < sum_list ws" by simp
    from Cons.IH [OF this] obtain j where j: "j < length ws" "sum_list (take j ws) \<le> b - w" "b - w < sum_list (take j ws) + ws ! j"
      and uniq: "\<And>i. i < length ws \<and> sum_list (take i ws) \<le> b - w \<and> b - w < sum_list (take i ws) + ws ! i \<Longrightarrow> i = j"
      by blast
    show ?thesis
    proof (rule ex1I [of _ "Suc j"])
      show "Suc j < length (w # ws) \<and> sum_list (take (Suc j) (w # ws)) \<le> b \<and> b < sum_list (take (Suc j) (w # ws)) + (w # ws) ! Suc j"
        using j False by auto
    next
      fix i assume a: "i < length (w # ws) \<and> sum_list (take i (w # ws)) \<le> b \<and> b < sum_list (take i (w # ws)) + (w # ws) ! i"
      show "i = Suc j"
      proof (cases i)
        case 0
        with a False show ?thesis by simp
      next
        case (Suc k)
        with a False have "k < length ws \<and> sum_list (take k ws) \<le> b - w \<and> b - w < sum_list (take k ws) + ws ! k"
          by auto
        from uniq [OF this] Suc show ?thesis by simp
      qed
    qed
  qed
qed

lemma ceil_div_8:
  "(k + 7) div 8 = (if k mod 8 > 0 then k div 8 + 1 else k div (8::nat))"
proof -
  have split: "(k + 7) div 8 = k div 8 + (k mod 8 + 7) div 8"
    using div_add1_eq [of k 7 8] by simp
  show ?thesis
  proof (cases "k mod 8 > 0")
    case True
    have "k mod 8 < 8" by simp
    with True have "(k mod 8 + 7) div 8 = 1"
      by (intro div_nat_eqI) simp_all
    with split True show ?thesis by simp
  next
    case False
    with split show ?thesis by simp
  qed
qed

lemma invalid_bytes_ceil:
  assumes "k \<le> 8 * (2 ^ 32 - 1)"
  shows "unat (if (of_nat k :: 64 word) = 0 then 0
               else if (of_nat k :: 64 word) mod 8 > 0 then ucast ((of_nat k :: 64 word) div 8 + 1)
               else ucast ((of_nat k :: 64 word) div 8) :: 32 word) = (k + 7) div 8"
proof -
  let ?w = "of_nat k :: 64 word"
  from assms have k: "unat ?w = k"
    by (simp add: unat_of_nat take_bit_eq_mod)
  have z: "(?w = 0) = (k = 0)"
    using k unat_eq_0 [of ?w] by simp
  have m: "(?w mod 8 > 0) = (k mod 8 > 0)"
    using k by (simp add: word_less_nat_alt unat_mod)
  have d: "unat (?w div 8) = k div 8"
    using k by (simp add: unat_div)
  have d1: "unat (?w div 8 + 1) = k div 8 + 1"
    using d assms by (simp add: unat_add_lem [THEN iffD1])
  have c: "unat (ucast x :: 32 word) = unat x" if "unat x < 2 ^ 32" for x :: "64 word"
    using that by (simp add: unsigned_ucast_eq take_bit_nat_eq_self)
  from assms have kb: "k \<le> 34359738360" by simp
  show ?thesis
  proof (cases "k mod 8 > 0")
    case True
    then have "k \<noteq> 34359738360" by auto
    with kb have "k \<le> 34359738359" by simp
    from div_le_mono [OF this, of 8] have "k div 8 + 1 < 2 ^ 32" by simp
    then have "unat (ucast (?w div 8 + 1) :: 32 word) = k div 8 + 1"
      using d1 by (simp add: c)
    moreover from True have "k \<noteq> 0" by auto
    ultimately show ?thesis
      using True z m by (simp add: ceil_div_8)
  next
    case False
    from div_le_mono [OF kb, of 8] have "k div 8 < 2 ^ 32" by simp
    then have "unat (ucast (?w div 8) :: 32 word) = k div 8"
      using d by (simp add: c)
    then show ?thesis
      using False z m by (simp add: ceil_div_8)
  qed
qed

lemma invalid_capable_laid_out [simp]: "invalid_capable (laid_out c bo ibo) = invalid_capable c"
  by (simp add: laid_out_def invalid_capable_def Flags_cn_def)

lemma DataBytes_laid_out [simp]: "DataBytes (laid_out c bo ibo) = DataBytes c"
  by (simp add: laid_out_def DataBytes_def)

lemma invalid_offset_laid_out [simp]:
  "cn_invalid_offset (cn (laid_out c bo ibo))
     = (if invalid_capable c then ibo else cn_invalid_offset (cn c))"
  by (simp add: laid_out_def)

lemma byte_offset_laid_out [simp]: "cn_byte_offset (cn (laid_out c bo ibo)) = bo"
  by (simp add: laid_out_def)

lemma loop_Some:
  "PrepareForWriting_loop (Some c # rest) nof bo ibo =
     (let (rest', r) = PrepareForWriting_loop rest (nof + ucast (DataBytes c)) (bo + DataBytes c)
                          (if invalid_capable c then ibo + 1 else ibo)
      in (Some (laid_out c bo ibo) # rest', r))"
  by (simp add: Let_def PrepareForWriting_cn_def SetInvalidOffset_def laid_out_def
      invalid_capable_def Flags_cn_def DataBytes_def ucast_down_add ucast_up_down
      split: prod.splits)

lemma loop_char:
  "PrepareForWriting_loop cns nof bo ibo = (cns', nof', bo', ibo') \<Longrightarrow>
   length (List.map_filter (\<lambda>p. p) cns') = length (List.map_filter (\<lambda>p. p) cns)
   \<and> (\<forall>i < length (List.map_filter (\<lambda>p. p) cns).
         List.map_filter (\<lambda>p. p) cns' ! i =
           laid_out (List.map_filter (\<lambda>p. p) cns ! i)
             (bo + sum_list (map DataBytes (take i (List.map_filter (\<lambda>p. p) cns))))
             (ibo + of_nat (length (filter invalid_capable (take i (List.map_filter (\<lambda>p. p) cns))))))
   \<and> nof' = nof + ucast (sum_list (map DataBytes (List.map_filter (\<lambda>p. p) cns)))
   \<and> bo' = bo + sum_list (map DataBytes (List.map_filter (\<lambda>p. p) cns))
   \<and> ibo' = ibo + of_nat (length (filter invalid_capable (List.map_filter (\<lambda>p. p) cns)))"
proof (induction cns arbitrary: nof bo ibo cns' nof' bo' ibo')
  case Nil
  then show ?case by simp
next
  case (Cons a cns)
  show ?case
  proof (cases a)
    case None
    with Cons.prems obtain rest' where
      run: "PrepareForWriting_loop cns nof bo ibo = (rest', nof', bo', ibo')"
      and cns': "cns' = None # rest'"
      by (auto split: prod.splits)
    from Cons.IH [OF run] None cns' show ?thesis by simp
  next
    case (Some c)
    let ?ibo = "if invalid_capable c then ibo + 1 else ibo"
    from Cons.prems Some obtain rest' where
      run: "PrepareForWriting_loop cns (nof + ucast (DataBytes c)) (bo + DataBytes c) ?ibo
              = (rest', nof', bo', ibo')"
      and cns': "cns' = Some (laid_out c bo ibo) # rest'"
      by (auto simp: loop_Some simp del: PrepareForWriting_loop.simps split: prod.splits)
    from Cons.IH [OF run] Some cns' show ?thesis
      by (auto simp: less_Suc_eq_0_disj ucast_down_add add.assoc)
  qed
qed

lemma loop_bits:
  "PrepareForWriting_loop cns nof bo ibo = (cns', nof', bo', ibo') \<Longrightarrow>
   map (\<lambda>c. cn_invalid_offset (cn c)) (filter invalid_capable (List.map_filter (\<lambda>p. p) cns'))
     = map (\<lambda>i. ibo + of_nat i)
         [0..<length (filter invalid_capable (List.map_filter (\<lambda>p. p) cns))]"
proof (induction cns arbitrary: nof bo ibo cns' nof' bo' ibo')
  case Nil
  then show ?case by simp
next
  case (Cons a cns)
  show ?case
  proof (cases a)
    case None
    with Cons.prems obtain rest' where
      run: "PrepareForWriting_loop cns nof bo ibo = (rest', nof', bo', ibo')"
      and cns': "cns' = None # rest'"
      by (auto split: prod.splits)
    from Cons.IH [OF run] None cns' show ?thesis by simp
  next
    case (Some c)
    let ?ibo = "if invalid_capable c then ibo + 1 else ibo"
    from Cons.prems Some obtain rest' where
      run: "PrepareForWriting_loop cns (nof + ucast (DataBytes c)) (bo + DataBytes c) ?ibo
              = (rest', nof', bo', ibo')"
      and cns': "cns' = Some (laid_out c bo ibo) # rest'"
      by (auto simp: loop_Some simp del: PrepareForWriting_loop.simps split: prod.splits)
    have shift: "map (\<lambda>i. ibo + of_nat i) [0..<Suc n] = ibo # map (\<lambda>i. ibo + 1 + of_nat i) [0..<n]"
      for n
      by (simp only: map_upt_Suc) (simp add: add.assoc)
    from Cons.IH [OF run] Some cns' show ?thesis
      by (auto simp: shift simp del: upt_Suc)
  qed
qed

lemma PrepareForWriting_fixed:
  assumes "Flags cg AND CgFlag_VlsdChannel = 0"
    and "PrepareForWriting_loop (cn_list cg) 0 0 0 = (cns', nof', bo', ibo')"
  shows "cn_list (PrepareForWriting cg) = cns'"
    and "nof_data_bytes (PrepareForWriting cg) = nof'"
    and "nof_invalid_bytes (PrepareForWriting cg) =
           (if ibo' = 0 then 0 else if ibo' mod 8 > 0 then ucast (ibo' div 8 + 1)
            else ucast (ibo' div 8))"
  using assms by (simp_all add: PrepareForWriting_def Let_def)

lemma ex_layout_run:
  "PrepareForWriting ex_layout_group = ex_layout_group\<lparr>cn_list :=
     [Some (Cn4Block (ex_fields\<lparr>cn_data_bytes := 4, cn_flags := 2\<rparr>) []),
      None,
      Some (Cn4Block (ex_fields\<lparr>cn_data_bytes := 2, cn_flags := 2, cn_byte_offset := 4,
              cn_invalid_offset := 1\<rparr>) []),
      Some (Cn4Block (ex_fields\<lparr>cn_data_bytes := 1, cn_byte_offset := 6,
              cn_invalid_offset := 5\<rparr>) [])],
     nof_data_bytes := 7, nof_invalid_bytes := 1, sample_buffer := replicate 8 0\<rparr>"
  by (simp add: PrepareForWriting_def ex_layout_group_def ex_group_def ex_fields_def Flags_def
      CgFlag_VlsdChannel_def CnFlag_InvalidValid_def PrepareForWriting_cn_def
      SetInvalidOffset_def DataBytes_def Flags_cn_def resize_def)

text \<open>
  C5, as the code has it. On a group that is not VLSD, let \<open>k\<close> be the number of
  invalid-capable channels among the declared channels: the loop does not visit the
  composition channels, and the composition list of every declared channel is after the call
  what it was before. \<open>PrepareForWriting\<close> leaves the flags alone, hands the positions
  \<open>0, 1, \<dots>, k - 1\<close> to the declared invalid-capable channels in the order of declaration, and
  leaves the position of every other declared channel as it was. The number of invalid bytes
  is \<open>k\<close> divided by 8, rounded up, as long as that fits the 32-bit member, and 0 when
  \<open>k = 0\<close>.
\<close>

theorem PrepareForWriting_invalid_bits:
  assumes "Flags cg AND CgFlag_VlsdChannel = 0"
  shows "(let ds = declared_channels cg;
              ds' = declared_channels (PrepareForWriting cg);
              k = length (filter invalid_capable ds)
          in length ds' = length ds
           \<and> map invalid_capable ds' = map invalid_capable ds
           \<and> map (\<lambda>c. cn_invalid_offset (cn c)) (filter invalid_capable ds') = map of_nat [0..<k]
           \<and> (\<forall>i < length ds. \<not> invalid_capable (ds ! i) \<longrightarrow>
                  cn_invalid_offset (cn (ds' ! i)) = cn_invalid_offset (cn (ds ! i)))
           \<and> (\<forall>i < length ds. Cx4 (ds' ! i) = Cx4 (ds ! i))
           \<and> (k \<le> 8 * (2 ^ 32 - 1) \<longrightarrow>
                  unat (nof_invalid_bytes (PrepareForWriting cg)) = (k + 7) div 8)
           \<and> (k = 0 \<longrightarrow> nof_invalid_bytes (PrepareForWriting cg) = 0))"
proof -
  obtain cns' nof' bo' ibo' where
    run: "PrepareForWriting_loop (cn_list cg) 0 0 0 = (cns', nof', bo', ibo')"
    by (cases "PrepareForWriting_loop (cn_list cg) 0 0 0") auto
  note fixed = PrepareForWriting_fixed [OF assms run]
  note char = loop_char [OF run]
  let ?ds = "declared_channels cg"
  let ?ds' = "declared_channels (PrepareForWriting cg)"
  let ?k = "length (filter invalid_capable ?ds)"
  have ds': "?ds' = List.map_filter (\<lambda>p. p) cns'"
    by (simp add: declared_channels_def fixed)
  have len: "length ?ds' = length ?ds"
    using char by (simp add: declared_channels_def fixed)
  have nth: "?ds' ! i = laid_out (?ds ! i) (sum_list (map DataBytes (take i ?ds)))
               (of_nat (length (filter invalid_capable (take i ?ds))))"
    if "i < length ?ds" for i
    using char that by (simp add: declared_channels_def fixed)
  have caps: "map invalid_capable ?ds' = map invalid_capable ?ds"
    by (rule nth_equalityI) (simp_all add: len nth)
  have bits: "map (\<lambda>c. cn_invalid_offset (cn c)) (filter invalid_capable ?ds') = map of_nat [0..<?k]"
    using loop_bits [OF run] by (simp add: declared_channels_def fixed)
  have keep: "cn_invalid_offset (cn (?ds' ! i)) = cn_invalid_offset (cn (?ds ! i))"
    if "i < length ?ds" "\<not> invalid_capable (?ds ! i)" for i
    using that by (simp add: nth)
  have comp: "Cx4 (?ds' ! i) = Cx4 (?ds ! i)" if "i < length ?ds" for i
    using that by (simp add: nth laid_out_def)
  have ibo': "ibo' = of_nat ?k"
    using char by (simp add: declared_channels_def)
  have bytes: "unat (nof_invalid_bytes (PrepareForWriting cg)) = (?k + 7) div 8"
    if "?k \<le> 8 * (2 ^ 32 - 1)"
    unfolding fixed ibo' by (rule invalid_bytes_ceil [OF that])
  have zero: "nof_invalid_bytes (PrepareForWriting cg) = 0" if "?k = 0"
    unfolding fixed ibo' using that by simp
  show ?thesis
    unfolding Let_def using len caps bits keep comp bytes zero by blast
qed

theorem PrepareForWriting_invalid_bits_witness:
  "map (\<lambda>c. cn_invalid_offset (cn c))
     (filter invalid_capable (declared_channels (PrepareForWriting ex_layout_group))) = [0, 1]
   \<and> nof_invalid_bytes (PrepareForWriting ex_layout_group) = 1"
proof -
  have fixed: "Flags ex_layout_group AND CgFlag_VlsdChannel = 0"
    by (simp add: ex_layout_group_def ex_group_def Flags_def)
  have k: "length (filter invalid_capable (declared_channels ex_layout_group)) = 2"
    by (simp add: ex_layout_group_def ex_group_def declared_channels_def invalid_capable_def
        Flags_cn_def CnFlag_InvalidValid_def ex_fields_def)
  note t = PrepareForWriting_invalid_bits [OF fixed, unfolded Let_def k]
  from t have "map (\<lambda>c. cn_invalid_offset (cn c))
     (filter invalid_capable (declared_channels (PrepareForWriting ex_layout_group)))
       = map of_nat [0..<2]"
    by blast
  then have bits: "map (\<lambda>c. cn_invalid_offset (cn c))
     (filter invalid_capable (declared_channels (PrepareForWriting ex_layout_group))) = [0, 1]"
    by (simp add: upt_rec)
  from t have "(2::nat) \<le> 8 * (2 ^ 32 - 1) \<longrightarrow>
      unat (nof_invalid_bytes (PrepareForWriting ex_layout_group)) = (2 + 7) div 8"
    by blast
  then have "unat (nof_invalid_bytes (PrepareForWriting ex_layout_group)) = 1"
    by simp
  then have "nof_invalid_bytes (PrepareForWriting ex_layout_group) = 1"
    by (simp add: word_unat_eq_iff)
  with bits show ?thesis by simp
qed

text \<open>
  The claim over all the channels of the group, composition channels included, fails: in
  \<open>ex_flagged_struct_group\<close> the only invalid-capable channel is a composition channel. It
  is in \<open>Channels\<close>, it keeps the position 77 instead of being handed 0, and the number of
  invalid bytes is 0, not 1.
\<close>

theorem PrepareForWriting_flattened_bits_counterexample:
  "map (\<lambda>c. (invalid_capable c, cn_invalid_offset (cn c)))
     (Channels (PrepareForWriting ex_flagged_struct_group)) = [(False, 0), (True, 77)]
   \<and> nof_invalid_bytes (PrepareForWriting ex_flagged_struct_group) = 0"
  by (simp add: PrepareForWriting_def Channels_def ex_flagged_struct_group_def
      ex_flagged_struct_def ex_flagged_member_def ex_group_def ex_fields_def Flags_def
      CgFlag_VlsdChannel_def CnFlag_InvalidValid_def PrepareForWriting_cn_def
      SetInvalidOffset_def DataBytes_def Flags_cn_def resize_def BlockType_def
      invalid_capable_def)

text \<open>
  C6, as the code has it. On a group that is not VLSD, \<open>PrepareForWriting\<close> goes through
  the declared channels in the order of declaration (null entries are skipped, composition
  channels are not visited). Each keeps its width and receives the running byte offset, the
  sum of the widths before it; the number of data bytes is the sum of all widths, cut to 32
  bits. When the widths sum to less than \<open>2 ^ 32\<close>, offsets and number of data bytes are
  these sums exactly, every field ends within the data bytes, and every byte position below
  the number of data bytes lies in the field of exactly one channel: the fields partition
  the data bytes without gap or overlap.
\<close>

theorem PrepareForWriting_byte_offsets:
  assumes "Flags cg AND CgFlag_VlsdChannel = 0"
  shows "(let ds = declared_channels cg;
              cg' = PrepareForWriting cg;
              ds' = declared_channels cg';
              width = (\<lambda>i. unat (DataBytes (ds' ! i)));
              offset = (\<lambda>i. unat (cn_byte_offset (cn (ds' ! i))))
          in length ds' = length ds
           \<and> (\<forall>i < length ds. DataBytes (ds' ! i) = DataBytes (ds ! i)
                  \<and> cn_byte_offset (cn (ds' ! i)) = sum_list (map DataBytes (take i ds)))
           \<and> nof_data_bytes cg' = ucast (sum_list (map DataBytes ds))
           \<and> (sum_list (map (\<lambda>c. unat (DataBytes c)) ds) < 2 ^ 32 \<longrightarrow>
                unat (nof_data_bytes cg') = sum_list (map (\<lambda>c. unat (DataBytes c)) ds)
              \<and> (\<forall>i < length ds.
                    offset i = sum_list (map (\<lambda>c. unat (DataBytes c)) (take i ds)))
              \<and> (\<forall>i < length ds. offset i + width i \<le> unat (nof_data_bytes cg'))
              \<and> (\<forall>b < unat (nof_data_bytes cg').
                    \<exists>!i. i < length ds \<and> offset i \<le> b \<and> b < offset i + width i)))"
proof -
  obtain cns' nof' bo' ibo' where
    run: "PrepareForWriting_loop (cn_list cg) 0 0 0 = (cns', nof', bo', ibo')"
    by (cases "PrepareForWriting_loop (cn_list cg) 0 0 0") auto
  note fixed = PrepareForWriting_fixed [OF assms run]
  note char = loop_char [OF run]
  let ?cg' = "PrepareForWriting cg"
  let ?ds = "declared_channels cg"
  let ?ds' = "declared_channels ?cg'"
  let ?f = "\<lambda>c. unat (DataBytes c)"
  let ?width = "\<lambda>i. unat (DataBytes (?ds' ! i))"
  let ?offset = "\<lambda>i. unat (cn_byte_offset (cn (?ds' ! i)))"
  have len: "length ?ds' = length ?ds"
    using char by (simp add: declared_channels_def fixed)
  have nth: "?ds' ! i = laid_out (?ds ! i) (sum_list (map DataBytes (take i ?ds)))
               (of_nat (length (filter invalid_capable (take i ?ds))))"
    if "i < length ?ds" for i
    using char that by (simp add: declared_channels_def fixed)
  have each: "DataBytes (?ds' ! i) = DataBytes (?ds ! i)
      \<and> cn_byte_offset (cn (?ds' ! i)) = sum_list (map DataBytes (take i ?ds))"
    if "i < length ?ds" for i
    using that by (simp add: nth)
  have total: "nof_data_bytes ?cg' = ucast (sum_list (map DataBytes ?ds))"
    using char by (simp add: declared_channels_def fixed)
  have exact: "unat (nof_data_bytes ?cg') = sum_list (map ?f ?ds)
      \<and> (\<forall>i < length ?ds. ?offset i = sum_list (map ?f (take i ?ds)))
      \<and> (\<forall>i < length ?ds. ?offset i + ?width i \<le> unat (nof_data_bytes ?cg'))
      \<and> (\<forall>b < unat (nof_data_bytes ?cg').
            \<exists>!i. i < length ?ds \<and> ?offset i \<le> b \<and> b < ?offset i + ?width i)"
    if small: "sum_list (map ?f ?ds) < 2 ^ 32"
  proof -
    have lt64: "sum_list (map ?f ?ds) < 2 ^ 64"
      using small by (rule less_trans) simp
    have sum_all: "unat (sum_list (map DataBytes ?ds)) = sum_list (map ?f ?ds)"
      using unat_sum_list [of "map DataBytes ?ds"] lt64 by (simp add: comp_def)
    have n: "unat (nof_data_bytes ?cg') = sum_list (map ?f ?ds)"
      using small sum_all by (simp add: total unat_ucast_small)
    have off: "?offset i = sum_list (map ?f (take i ?ds))" if "i < length ?ds" for i
    proof -
      have "sum_list (map ?f (take i ?ds)) < 2 ^ 64"
        using sum_list_take_le [of ?f i ?ds] lt64 by (rule le_less_trans)
      then have "unat (sum_list (map DataBytes (take i ?ds))) = sum_list (map ?f (take i ?ds))"
        using unat_sum_list [of "map DataBytes (take i ?ds)"] by (simp add: comp_def)
      with each [OF that] show ?thesis by simp
    qed
    have wid: "?width i = ?f (?ds ! i)" if "i < length ?ds" for i
      using each [OF that] by simp
    have fits: "?offset i + ?width i \<le> unat (nof_data_bytes ?cg')" if "i < length ?ds" for i
    proof -
      have "?offset i + ?width i = sum_list (map ?f (take (Suc i) ?ds))"
        using that by (simp add: off wid take_Suc_conv_app_nth)
      also have "\<dots> \<le> sum_list (map ?f ?ds)" by (rule sum_list_take_le)
      finally show ?thesis by (simp add: n)
    qed
    have part: "\<exists>!i. i < length ?ds \<and> ?offset i \<le> b \<and> b < ?offset i + ?width i"
      if "b < unat (nof_data_bytes ?cg')" for b
    proof -
      let ?ws = "map ?f ?ds"
      let ?P = "\<lambda>i. i < length ?ws \<and> sum_list (take i ?ws) \<le> b
                     \<and> b < sum_list (take i ?ws) + ?ws ! i"
      let ?Q = "\<lambda>i. i < length ?ds \<and> ?offset i \<le> b \<and> b < ?offset i + ?width i"
      have eq: "?P i = ?Q i" for i
        by (cases "i < length ?ds") (simp_all add: off wid take_map)
      from that have "b < sum_list ?ws" by (simp add: n)
      from partition_prefix [OF this] obtain j where j: "?P j"
        and uniq: "\<And>i. ?P i \<Longrightarrow> i = j"
        by blast
      show ?thesis
      proof (rule ex1I [of _ j])
        from j show "?Q j" by (simp only: eq)
      next
        fix i assume "?Q i"
        then have "?P i" by (simp only: eq)
        then show "i = j" by (rule uniq)
      qed
    qed
    from n off fits part show ?thesis by blast
  qed
  show ?thesis
    unfolding Let_def using len each total exact by blast
qed

theorem PrepareForWriting_byte_offsets_witness:
  "map (\<lambda>c. cn_byte_offset (cn c)) (declared_channels (PrepareForWriting ex_layout_group))
     = [0, 4, 6]
   \<and> nof_data_bytes (PrepareForWriting ex_layout_group) = 7"
proof -
  have fixed: "Flags ex_layout_group AND CgFlag_VlsdChannel = 0"
    by (simp add: ex_layout_group_def ex_group_def Flags_def)
  have ev: "map (\<lambda>c. cn_byte_offset (cn c)) (declared_channels (PrepareForWriting ex_layout_group))
     = [0, 4, 6]
   \<and> nof_data_bytes (PrepareForWriting ex_layout_group) = 7"
    by (simp add: ex_layout_run declared_channels_def ex_fields_def)
  from ev PrepareForWriting_byte_offsets [OF fixed] show ?thesis
    by (rule conjunct1 [OF conjI])
qed

text \<open>
  The claim with the flattened channel list fails: in \<open>ex_struct_group\<close> the composition
  channel of width 2 is in \<open>Channels\<close>, but it is not handed the running offset 4 and its
  width is not added: its field, at offset 0, overlaps the structure's, and the number of
  data bytes is 4, not 6.
\<close>

theorem PrepareForWriting_flattened_counterexample:
  "map (\<lambda>c. (cn_byte_offset (cn c), DataBytes c)) (Channels (PrepareForWriting ex_struct_group))
     = [(0, 4), (0, 2)]
   \<and> nof_data_bytes (PrepareForWriting ex_struct_group) = 4"
  by (simp add: PrepareForWriting_def Channels_def ex_struct_group_def ex_struct_def
      ex_member_def ex_group_def ex_fields_def Flags_def CgFlag_VlsdChannel_def
      CnFlag_InvalidValid_def PrepareForWriting_cn_def SetInvalidOffset_def DataBytes_def
      Flags_cn_def resize_def BlockType_def)

section \<open>Properties of writing the block\<close>









lemma UpdateDataLinks_fields:
  "cn (UpdateDataLinks kind pos c)
     = (if Type c = kind then (cn c)\<lparr>cn_data_link := pos\<rparr> else cn c)"
  by (cases c) (simp add: Type_def UpdateDataLink_def Let_def)

lemma UpdateDataLinks_Type [simp]: "Type (UpdateDataLinks kind pos c) = Type c"
  by (simp add: Type_def UpdateDataLinks_fields)

lemma UpdateDataLinks_BlockType [simp]: "BlockType (UpdateDataLinks kind pos c) = BlockType c"
  by (simp add: BlockType_def Type_def UpdateDataLinks_fields)

lemma UpdateDataLinks_Name [simp]: "Name_cn (UpdateDataLinks kind pos c) = Name_cn c"
  by (simp add: Name_cn_def Type_def UpdateDataLinks_fields)

lemma UpdateDataLinks_Index [simp]: "Index_cn (UpdateDataLinks kind pos c) = Index_cn c"
  by (simp add: Index_cn_def Type_def UpdateDataLinks_fields)



declare UpdateDataLinks.simps [simp del]




lemma FilePosition_cn_list [simp]: "FilePosition (cg\<lparr>cn_list := cns\<rparr>) = FilePosition cg"
  by (simp add: FilePosition_def)





lemma length_le_bytes [simp]: "length (le_bytes n w) = n"
  by (simp add: le_bytes_def)








lemma with_base_keeps [simp]:
  "nof_samples_position (with_base cg b) = nof_samples_position cg"
  "nof_data_position (with_base cg b) = nof_data_position cg"
  "nof_invalid_position (with_base cg b) = nof_invalid_position cg"
  "nof_samples (with_base cg b) = nof_samples cg"
  "nof_data_bytes (with_base cg b) = nof_data_bytes cg"
  "nof_invalid_bytes (with_base cg b) = nof_invalid_bytes cg"
  "FilePosition (with_base cg b) = file_position b"
  "block_length (with_base cg b) = block_length b"
  by (simp_all add: with_base_def FilePosition_def)





lemma fwrite_position [simp]: "position (fwrite bs file) = position file + length bs"
  by (simp add: fwrite_def Let_def)























end
